theory Spec2Isabelle
  imports Main "HOL-Library.AList"
begin

section \<open>JavaScript values used by ConfigReader\<close>

text \<open>
  Strings are lists of 8-bit characters, read as the code points U+0000 to U+00FF.
  An object literal is the association list of its own properties in the order
  \<^verbatim>\<open>Object.keys\<close> lists them. A property read \<^verbatim>\<open>obj[k]\<close> on an object literal finds an
  own property, or else a member that every object literal inherits from
  \<^verbatim>\<open>Object.prototype\<close>, or else yields \<^verbatim>\<open>undefined\<close>.
\<close>

datatype 'a member = Undefined | Own 'a | Inherited string

definition object_prototype_keys :: "string list" where
  "object_prototype_keys =
     [''constructor'', ''__defineGetter__'', ''__defineSetter__'', ''hasOwnProperty'',
      ''__lookupGetter__'', ''__lookupSetter__'', ''isPrototypeOf'', ''propertyIsEnumerable'',
      ''toString'', ''valueOf'', ''__proto__'', ''toLocaleString'']"

definition js_get :: "(string \<times> 'a) list \<Rightarrow> string \<Rightarrow> 'a member" where
  "js_get obj k =
     (case map_of obj k of
        Some v \<Rightarrow> Own v
      | None \<Rightarrow> if k \<in> set object_prototype_keys then Inherited k else Undefined)"

text \<open>The operator \<^verbatim>\<open>k in obj\<close>: own or inherited.\<close>

definition js_in :: "string \<Rightarrow> (string \<times> 'a) list \<Rightarrow> bool" where
  "js_in k obj = (case js_get obj k of Undefined \<Rightarrow> False | _ \<Rightarrow> True)"

definition object_keys :: "(string \<times> 'a) list \<Rightarrow> string list" where
  "object_keys obj = map fst obj"

text \<open>
  The \<^verbatim>\<open>name\<close> property of an inherited member: the members are functions named
  after their key, except \<^verbatim>\<open>constructor\<close> (the function \<^verbatim>\<open>Object\<close>) and \<^verbatim>\<open>__proto__\<close>
  (the prototype object itself, which has no \<^verbatim>\<open>name\<close>; a template literal prints
  \<^verbatim>\<open>undefined\<close>).
\<close>

definition inherited_name :: "string \<Rightarrow> string" where
  "inherited_name k =
     (if k = ''__proto__'' then ''undefined''
      else if k = ''constructor'' then ''Object'' else k)"

text \<open>
  Truthiness of a string that may be \<^verbatim>\<open>undefined\<close>: \<^verbatim>\<open>undefined\<close> and the empty string
  are falsy. \<open>js_or a b\<close> is \<^verbatim>\<open>a || b\<close>; \<open>or_str a b\<close> is the same with a string on the right.
\<close>

definition truthy :: "string option \<Rightarrow> bool" where
  "truthy a = (case a of None \<Rightarrow> False | Some s \<Rightarrow> s \<noteq> [])"

definition js_or :: "string option \<Rightarrow> string option \<Rightarrow> string option" where
  "js_or a b = (if truthy a then a else b)"

definition or_str :: "string option \<Rightarrow> string \<Rightarrow> string" where
  "or_str a b = (case a of None \<Rightarrow> b | Some s \<Rightarrow> if s \<noteq> [] then s else b)"

text \<open>\<^verbatim>\<open>xs.join(sep)\<close>\<close>

fun join :: "string \<Rightarrow> string list \<Rightarrow> string" where
  "join sep [] = []"
| "join sep [x] = x"
| "join sep (x # y # ys) = x @ sep @ join sep (y # ys)"

text \<open>
  \<^verbatim>\<open>s.toUpperCase()\<close>, character by character. In U+0000 to U+00FF the lower-case
  letters are a to z and U+00E0 to U+00FE without U+00F7, whose upper-case form clears
  bit 5; U+00DF becomes \<^verbatim>\<open>SS\<close>. The upper-case forms of U+00B5 and U+00FF lie outside the
  range (U+039C, U+0178) and are no ASCII letters or digits: the two characters stand for
  them here.
\<close>

definition clear_bit5 :: "char \<Rightarrow> char" where
  "clear_bit5 c = (case c of Char b0 b1 b2 b3 b4 b5 b6 b7 \<Rightarrow> Char b0 b1 b2 b3 b4 False b6 b7)"

definition toUpperCase_char :: "char \<Rightarrow> string" where
  "toUpperCase_char c =
     (let n = (of_char c :: nat) in
      if 97 \<le> n \<and> n \<le> 122 then [clear_bit5 c]
      else if n = 223 then ''SS''
      else if 224 \<le> n \<and> n \<le> 254 \<and> n \<noteq> 247 then [clear_bit5 c]
      else [c])"

definition toUpperCase :: "string \<Rightarrow> string" where
  "toUpperCase s = concat (map toUpperCase_char s)"

text \<open>\<^verbatim>\<open>s.replace(/[^A-Z0-9]/g, '_')\<close>\<close>

definition is_AZ09 :: "char \<Rightarrow> bool" where
  "is_AZ09 c =
     (let n = (of_char c :: nat) in (65 \<le> n \<and> n \<le> 90) \<or> (48 \<le> n \<and> n \<le> 57))"

definition replace_non_AZ09 :: "string \<Rightarrow> string" where
  "replace_non_AZ09 s = map (\<lambda>c. if is_AZ09 c then c else CHR ''_'') s"

text \<open>
  \<^verbatim>\<open>s.replace(/\/$/, '')\<close>: the pattern matches a slash that is followed by the end of
  the input; the scan goes left to right and removes the first match.
\<close>

fun replace_slash_at_end :: "string \<Rightarrow> string" where
  "replace_slash_at_end [] = []"
| "replace_slash_at_end (c # cs) =
     (if c = CHR ''/'' \<and> cs = [] then [] else c # replace_slash_at_end cs)"

text \<open>\<^verbatim>\<open>s.startsWith('/')\<close>\<close>

definition startsWith_slash :: "string \<Rightarrow> bool" where
  "startsWith_slash s = (case s of [] \<Rightarrow> False | c # _ \<Rightarrow> c = CHR ''/'')"

section \<open>The configuration table (test.config.ts)\<close>

record UrlConfig =
  protocol :: string
  envPrefix :: string
  subdomain :: string
  domain :: string

text \<open>
  \<^verbatim>\<open>Credentials\<close>: in the table both fields are strings; in the object that
  \<^verbatim>\<open>getCredentials\<close> builds, a field may be \<^verbatim>\<open>undefined\<close> (\<open>None\<close>).
\<close>

record 's Credentials =
  username :: 's
  password :: 's

record TestEnvironmentConfig =
  name :: string
  baseUrl :: string
  urlConfig :: "UrlConfig option"
  domainPaths :: "(string \<times> string) list"
  credentials :: "(string \<times> string Credentials) list"

record TestConfig =
  environments :: "(string \<times> TestEnvironmentConfig) list"

definition shippedPaths :: "string \<Rightarrow> string \<Rightarrow> (string \<times> string) list" where
  "shippedPaths site login =
     [(''site'', site), (''highway'', ''repohighway''), (''login'', login),
      (''home'', ''/home''), (''logout'', ''/logout''), (''settings'', ''/settings'')]"

definition devEnvironment :: TestEnvironmentConfig where
  "devEnvironment =
     \<lparr>name = ''Development'', baseUrl = [],
      urlConfig = Some \<lparr>protocol = ''https'', envPrefix = ''dev'',
                          subdomain = ''repohighway'', domain = ''devservices.dh.com''\<rparr>,
      domainPaths = shippedPaths ''DEV'' ''/go.aspx'',
      credentials =
        [(''admin'', \<lparr>username = ''admin@example.com'', password = ''Admin123!''\<rparr>),
         (''testUser1'', \<lparr>username = ''testuser1@example.com'', password = ''TestUser123!''\<rparr>),
         (''testUser2'', \<lparr>username = ''testuser2@example.com'', password = ''TestUser456!''\<rparr>),
         (''readOnlyUser'', \<lparr>username = ''readonly@example.com'', password = ''ReadOnly123!''\<rparr>)]\<rparr>"

definition qaEnvironment :: TestEnvironmentConfig where
  "qaEnvironment =
     \<lparr>name = ''QA'', baseUrl = [],
      urlConfig = Some \<lparr>protocol = ''https'', envPrefix = ''qa2'',
                          subdomain = ''repohighway'', domain = ''devservices.dh.com''\<rparr>,
      domainPaths = shippedPaths ''QA'' ''/go.aspx'',
      credentials =
        [(''RBCClient'', \<lparr>username = ''MIJIRBC'', password = ''Assetuse@1''\<rparr>),
         (''TDFClient'', \<lparr>username = ''MIJITDF'', password = ''Assetuse@2''\<rparr>),
         (''testUser2'', \<lparr>username = ''staginguser2@example.com'', password = ''StagingUser456!''\<rparr>),
         (''readOnlyUser'', \<lparr>username = ''readonly@example.com'', password = ''ReadOnly123!''\<rparr>)]\<rparr>"

definition prodEnvironment :: TestEnvironmentConfig where
  "prodEnvironment =
     \<lparr>name = ''Production'', baseUrl = [],
      urlConfig = Some \<lparr>protocol = ''https'', envPrefix = ''prod'',
                          subdomain = ''repohighway'', domain = ''dh.com''\<rparr>,
      domainPaths = shippedPaths ''PROD'' ''/go.aspx'',
      credentials =
        [(''admin'', \<lparr>username = ''prod.admin@example.com'', password = ''ProdAdmin123!''\<rparr>),
         (''testUser1'', \<lparr>username = ''produser1@example.com'', password = ''ProdUser123!''\<rparr>),
         (''testUser2'', \<lparr>username = ''produser2@example.com'', password = ''ProdUser456!''\<rparr>),
         (''readOnlyUser'', \<lparr>username = ''prod.readonly@example.com'', password = ''ProdReadOnly123!''\<rparr>)]\<rparr>"

definition localEnvironment :: TestEnvironmentConfig where
  "localEnvironment =
     \<lparr>name = ''Local'', baseUrl = ''http://localhost:3000'',
      urlConfig = None,
      domainPaths = shippedPaths ''LOCAL'' ''/login'',
      credentials =
        [(''admin'', \<lparr>username = ''admin@localhost'', password = ''local123''\<rparr>),
         (''testUser1'', \<lparr>username = ''test@localhost'', password = ''test123''\<rparr>),
         (''testUser2'', \<lparr>username = ''user@localhost'', password = ''user123''\<rparr>),
         (''readOnlyUser'', \<lparr>username = ''readonly@localhost'', password = ''readonly123''\<rparr>)]\<rparr>"

definition testConfig :: TestConfig where
  "testConfig = \<lparr>environments =
     [(''dev'', devEnvironment), (''QA'', qaEnvironment),
      (''prod'', prodEnvironment), (''local'', localEnvironment)]\<rparr>"

section \<open>ConfigReader\<close>

text \<open>
  The three static fields of the class are the state; every method takes it and the
  ones that write return it updated. \<^verbatim>\<open>process.env\<close> is a map from variable names to
  strings, read afresh at every use. The source throws \<^verbatim>\<open>new Error(message)\<close> at every
  failure: \<open>Error k m\<close> carries the message \<open>m\<close> and names the throw site \<open>k\<close>.
  \<open>TypeError\<close> is what the runtime throws on a property read from \<^verbatim>\<open>undefined\<close> or a
  call of something that is no function. Calls to the logger have no effect here.
\<close>

type_synonym process_env = "string \<rightharpoonup> string"

datatype kind =
    UnknownEnvironment | MissingBaseUrl | UnknownPath | UnknownCredential
  | NoEnvironments | MissingField | EmptyPathSet | EmptyCredentialSet
  | IncompleteCredentialPair

datatype js_error = Error kind string | TypeError

record ConfigReader =
  cache :: "(string \<times> TestEnvironmentConfig member) list"
  cacheEnabled :: bool
  currentEnvironment :: "string option"

definition initialState :: ConfigReader where
  "initialState = \<lparr>cache = [], cacheEnabled = True, currentEnvironment = None\<rparr>"

definition clearCache :: "ConfigReader \<Rightarrow> ConfigReader" where
  "clearCache st = st\<lparr>cache := [], currentEnvironment := None\<rparr>"

definition setCaching :: "bool \<Rightarrow> ConfigReader \<Rightarrow> ConfigReader" where
  "setCaching enabled st =
     (let st' = st\<lparr>cacheEnabled := enabled\<rparr>
      in if \<not> enabled then clearCache st' else st')"

definition getEnvironmentName :: "process_env \<Rightarrow> ConfigReader \<Rightarrow> string" where
  "getEnvironmentName penv st =
     (if truthy (currentEnvironment st) then the (currentEnvironment st)
      else or_str (penv ''TEST_ENV'') ''QA'')"

definition hasEnvironment :: "TestConfig \<Rightarrow> string \<Rightarrow> bool" where
  "hasEnvironment tc envName = js_in envName (environments tc)"

definition getAvailableEnvironments :: "TestConfig \<Rightarrow> string list" where
  "getAvailableEnvironments tc = object_keys (environments tc)"

definition setEnvironment ::
  "TestConfig \<Rightarrow> string \<Rightarrow> ConfigReader \<Rightarrow> (js_error + unit) \<times> ConfigReader" where
  "setEnvironment tc envName st =
     (if \<not> hasEnvironment tc envName
      then (Inl (Error UnknownEnvironment
                  (''Environment \"'' @ envName @ ''\" not found. Available environments: ''
                   @ join '', '' (getAvailableEnvironments tc))), st)
      else (Inr (), clearCache (st\<lparr>currentEnvironment := Some envName\<rparr>)))"

text \<open>The expression \<^verbatim>\<open>envName || this.getEnvironmentName()\<close> of \<^verbatim>\<open>getEnvironmentConfig\<close>.\<close>

definition resolvedName :: "process_env \<Rightarrow> string option \<Rightarrow> ConfigReader \<Rightarrow> string" where
  "resolvedName penv envName st =
     (if truthy envName then the envName else getEnvironmentName penv st)"

definition getEnvironmentConfig ::
  "TestConfig \<Rightarrow> process_env \<Rightarrow> string option \<Rightarrow> ConfigReader
     \<Rightarrow> (js_error + TestEnvironmentConfig member) \<times> ConfigReader" where
  "getEnvironmentConfig tc penv envName st =
     (let env = resolvedName penv envName st;
          cacheKey = ''env_'' @ env
      in case (if cacheEnabled st then map_of (cache st) cacheKey else None) of
           Some cached \<Rightarrow> (Inr cached, st)
         | None \<Rightarrow>
            (case js_get (environments tc) env of
               Undefined \<Rightarrow>
                 (Inl (Error UnknownEnvironment
                        (''Environment \"'' @ env @ ''\" not found in test.config.ts. Available: ''
                         @ join '', '' (getAvailableEnvironments tc))), st)
             | config \<Rightarrow>
                 (Inr config,
                  if cacheEnabled st
                  then st\<lparr>cache := AList.update cacheKey config (cache st)\<rparr> else st)))"

definition buildBaseUrl :: "process_env \<Rightarrow> UrlConfig \<Rightarrow> string option \<Rightarrow> string" where
  "buildBaseUrl penv urlCfg envPrefixOverride =
     (let prefix = or_str envPrefixOverride (or_str (penv ''ENV_PREFIX'') (envPrefix urlCfg));
          sub = or_str (penv ''SUBDOMAIN'') (subdomain urlCfg);
          dom = domain urlCfg
      in protocol urlCfg @ ''://'' @ prefix @ sub @ ''.'' @ dom)"

definition getBaseUrl ::
  "TestConfig \<Rightarrow> process_env \<Rightarrow> string option \<Rightarrow> ConfigReader
     \<Rightarrow> (js_error + string) \<times> ConfigReader" where
  "getBaseUrl tc penv envName st =
     (if truthy (penv ''BASE_URL'') then (Inr (the (penv ''BASE_URL'')), st)
      else case getEnvironmentConfig tc penv envName st of
             (Inl e, st') \<Rightarrow> (Inl e, st')
           | (Inr config, st') \<Rightarrow>
              (case config of
                 Own c \<Rightarrow>
                   (case urlConfig c of
                      Some u \<Rightarrow> (Inr (buildBaseUrl penv u None), st')
                    | None \<Rightarrow>
                        if baseUrl c \<noteq> [] then (Inr (baseUrl c), st')
                        else (Inl (Error MissingBaseUrl
                                    (''No baseUrl or urlConfig found for environment: '' @ name c)),
                              st'))
               | Inherited k \<Rightarrow>
                   (Inl (Error MissingBaseUrl
                          (''No baseUrl or urlConfig found for environment: '' @ inherited_name k)),
                    st')
               | Undefined \<Rightarrow> (Inl TypeError, st')))"

definition getDomainPath ::
  "TestConfig \<Rightarrow> process_env \<Rightarrow> string \<Rightarrow> string option \<Rightarrow> ConfigReader
     \<Rightarrow> (js_error + string member) \<times> ConfigReader" where
  "getDomainPath tc penv pathKey envName st =
     (case getEnvironmentConfig tc penv envName st of
        (Inl e, st') \<Rightarrow> (Inl e, st')
      | (Inr config, st') \<Rightarrow>
         (case config of
            Own c \<Rightarrow>
              (let notFound =
                     Error UnknownPath
                       (''Domain path \"'' @ pathKey @ ''\" not found for environment \"'' @ name c
                        @ ''\". Available paths: '' @ join '', '' (object_keys (domainPaths c)))
               in case js_get (domainPaths c) pathKey of
                    Undefined \<Rightarrow> (Inl notFound, st')
                  | Own p \<Rightarrow> if p = [] then (Inl notFound, st') else (Inr (Own p), st')
                  | Inherited k \<Rightarrow> (Inr (Inherited k), st'))
          | _ \<Rightarrow> (Inl TypeError, st')))"

definition getUrl ::
  "TestConfig \<Rightarrow> process_env \<Rightarrow> string \<Rightarrow> string option \<Rightarrow> ConfigReader
     \<Rightarrow> (js_error + string) \<times> ConfigReader" where
  "getUrl tc penv pathKey envName st =
     (case getBaseUrl tc penv envName st of
        (Inl e, st1) \<Rightarrow> (Inl e, st1)
      | (Inr base, st1) \<Rightarrow>
         (case getDomainPath tc penv pathKey envName st1 of
            (Inl e, st2) \<Rightarrow> (Inl e, st2)
          | (Inr path, st2) \<Rightarrow>
             (case path of
                Own p \<Rightarrow>
                  (let cleanBaseUrl = replace_slash_at_end base;
                       cleanPath = (if startsWith_slash p then p else ''/'' @ p)
                   in (Inr (cleanBaseUrl @ cleanPath), st2))
              | _ \<Rightarrow> (Inl TypeError, st2))))"

definition envKeyPrefix :: "string \<Rightarrow> string" where
  "envKeyPrefix credentialKey = replace_non_AZ09 (toUpperCase credentialKey)"

definition getCredentials ::
  "TestConfig \<Rightarrow> process_env \<Rightarrow> string \<Rightarrow> string option \<Rightarrow> ConfigReader
     \<Rightarrow> (js_error + string option Credentials) \<times> ConfigReader" where
  "getCredentials tc penv credentialKey envName st =
     (case getEnvironmentConfig tc penv envName st of
        (Inl e, st') \<Rightarrow> (Inl e, st')
      | (Inr config, st') \<Rightarrow>
         (case config of
            Own c \<Rightarrow>
              (let usernameOverride = penv (envKeyPrefix credentialKey @ ''_USERNAME'');
                   passwordOverride = penv (envKeyPrefix credentialKey @ ''_PASSWORD'')
               in case js_get (credentials c) credentialKey of
                    Undefined \<Rightarrow>
                      (Inl (Error UnknownCredential
                             (''Credentials \"'' @ credentialKey
                              @ ''\" not found for environment \"'' @ name c
                              @ ''\". Available: '' @ join '', '' (object_keys (credentials c)))),
                       st')
                  | Own cr \<Rightarrow>
                      (Inr \<lparr>username = js_or usernameOverride (Some (username cr)),
                            password = js_or passwordOverride (Some (password cr))\<rparr>, st')
                  | Inherited k \<Rightarrow>
                      (Inr \<lparr>username = js_or usernameOverride None,
                            password = js_or passwordOverride None\<rparr>, st'))
          | _ \<Rightarrow> (Inl TypeError, st')))"

text \<open>
  The body of the loop of \<^verbatim>\<open>validateConfig\<close> for one environment: the first check that
  fails, if any. \<^verbatim>\<open>domainPaths\<close> and \<^verbatim>\<open>credentials\<close> are objects, which are truthy, so
  the two checks that they are present never fire.
\<close>

fun validateCredentials ::
  "string \<Rightarrow> (string \<times> string Credentials) list \<Rightarrow> string list \<Rightarrow> js_error option" where
  "validateCredentials envName creds [] = None"
| "validateCredentials envName creds (credKey # credKeys) =
     (case map_of creds credKey of
        None \<Rightarrow> Some TypeError
      | Some cred \<Rightarrow>
          if username cred = [] \<or> password cred = []
          then Some (Error IncompleteCredentialPair
                      (''Credentials \"'' @ credKey @ ''\" in environment \"'' @ envName
                       @ ''\" missing username or password''))
          else validateCredentials envName creds credKeys)"

definition validateUrlConfig :: "string \<Rightarrow> UrlConfig \<Rightarrow> js_error option" where
  "validateUrlConfig envName u =
     (let missing = (\<lambda>field. Some (Error MissingField
                       (''Environment \"'' @ envName @ ''\" urlConfig missing required field: ''
                        @ field)))
      in if protocol u = [] then missing ''protocol''
         else if envPrefix u = [] then missing ''envPrefix''
         else if subdomain u = [] then missing ''subdomain''
         else if domain u = [] then missing ''domain''
         else None)"

definition validateEnvironment :: "string \<Rightarrow> TestEnvironmentConfig \<Rightarrow> js_error option" where
  "validateEnvironment envName config =
     (if name config = []
      then Some (Error MissingField
                  (''Environment \"'' @ envName @ ''\" missing required field: name''))
      else if baseUrl config = []
      then Some (Error MissingField
                  (''Environment \"'' @ envName @ ''\" missing required field: baseUrl''))
      else case (case urlConfig config of None \<Rightarrow> None | Some u \<Rightarrow> validateUrlConfig envName u) of
             Some e \<Rightarrow> Some e
           | None \<Rightarrow>
               if object_keys (domainPaths config) = []
               then Some (Error EmptyPathSet
                           (''Environment \"'' @ envName @ ''\" has no domain paths defined''))
               else if object_keys (credentials config) = []
               then Some (Error EmptyCredentialSet
                           (''Environment \"'' @ envName @ ''\" has no credentials defined''))
               else validateCredentials envName (credentials config)
                      (object_keys (credentials config)))"

fun validateEnvironments :: "TestConfig \<Rightarrow> string list \<Rightarrow> js_error + bool" where
  "validateEnvironments tc [] = Inr True"
| "validateEnvironments tc (envName # envNames) =
     (case map_of (environments tc) envName of
        None \<Rightarrow> Inl TypeError
      | Some config \<Rightarrow>
          (case validateEnvironment envName config of
             Some e \<Rightarrow> Inl e
           | None \<Rightarrow> validateEnvironments tc envNames))"

definition validateConfig :: "TestConfig \<Rightarrow> js_error + bool" where
  "validateConfig tc =
     (let envs = getAvailableEnvironments tc
      in if length envs = 0
         then Inl (Error NoEnvironments ''No environments defined in test.config.ts'')
         else validateEnvironments tc envs)"

section \<open>Notions used to state the properties\<close>

text \<open>
  What the table holds under a name, as \<^verbatim>\<open>getEnvironmentConfig\<close> reports it on a cache
  miss: the value found, or the error that lists the table's keys.
\<close>

definition lookupEnvironment ::
  "TestConfig \<Rightarrow> string \<Rightarrow> js_error + TestEnvironmentConfig member" where
  "lookupEnvironment tc env =
     (case js_get (environments tc) env of
        Undefined \<Rightarrow>
          Inl (Error UnknownEnvironment
                (''Environment \"'' @ env @ ''\" not found in test.config.ts. Available: ''
                 @ join '', '' (getAvailableEnvironments tc)))
      | config \<Rightarrow> Inr config)"

text \<open>
  The cache holds only what \<^verbatim>\<open>getEnvironmentConfig\<close> stored: under the key
  \<^verbatim>\<open>env_\<close> followed by a name, the value the table has for that name. The field is
  private and the table never changes, so every state the class can reach satisfies it
  (lemmas \<open>cache_consistent_initial\<close> to \<open>getCredentials_consistent\<close> below).
\<close>

definition cache_consistent :: "TestConfig \<Rightarrow> ConfigReader \<Rightarrow> bool" where
  "cache_consistent tc st =
     list_all (\<lambda>(k, v). take 4 k = ''env_'' \<and> v \<noteq> Undefined
                         \<and> js_get (environments tc) (drop 4 k) = v) (cache st)"

text \<open>
  The two string operations in the words of the specification: a base URL
  ``with a single trailing slash (if any) stripped'', a path ``prefixed by a slash unless
  it already starts with one''.
\<close>

definition stripTrailingSlash :: "string \<Rightarrow> string" where
  "stripTrailingSlash s = (if s \<noteq> [] \<and> last s = CHR ''/'' then butlast s else s)"

definition ensureLeadingSlash :: "string \<Rightarrow> string" where
  "ensureLeadingSlash s = (if s \<noteq> [] \<and> hd s = CHR ''/'' then s else CHR ''/'' # s)"

text \<open>
  An environment that passes every check of \<^verbatim>\<open>validateConfig\<close>.
\<close>

definition urlConfig_complete :: "UrlConfig \<Rightarrow> bool" where
  "urlConfig_complete u =
     (protocol u \<noteq> [] \<and> envPrefix u \<noteq> [] \<and> subdomain u \<noteq> [] \<and> domain u \<noteq> [])"

definition credentials_complete :: "string Credentials \<Rightarrow> bool" where
  "credentials_complete cr = (username cr \<noteq> [] \<and> password cr \<noteq> [])"

definition passes_field_checks :: "TestEnvironmentConfig \<Rightarrow> bool" where
  "passes_field_checks c =
     (name c \<noteq> [] \<and> baseUrl c \<noteq> []
      \<and> (case urlConfig c of None \<Rightarrow> True | Some u \<Rightarrow> urlConfig_complete u))"

definition environment_valid :: "TestEnvironmentConfig \<Rightarrow> bool" where
  "environment_valid c =
     (passes_field_checks c \<and> domainPaths c \<noteq> [] \<and> credentials c \<noteq> []
      \<and> list_all (\<lambda>(k, cr). credentials_complete cr) (credentials c))"

text \<open>
  The invariants of the data model as the specification words them: at least one path,
  at least one credential set, complete pairs, complete \<^verbatim>\<open>urlConfig\<close> when present, a
  non-empty \<^verbatim>\<open>baseUrl\<close> when it is absent.
\<close>

definition spec_invariant :: "TestEnvironmentConfig \<Rightarrow> bool" where
  "spec_invariant c =
     (domainPaths c \<noteq> [] \<and> credentials c \<noteq> []
      \<and> list_all (\<lambda>(k, cr). credentials_complete cr) (credentials c)
      \<and> (case urlConfig c of None \<Rightarrow> baseUrl c \<noteq> [] | Some u \<Rightarrow> urlConfig_complete u))"

text \<open>Tables used as examples.\<close>

definition unnamedConfig :: TestConfig where
  "unnamedConfig = \<lparr>environments = [(''local'', localEnvironment\<lparr>name := []\<rparr>)]\<rparr>"

definition noCredentialsConfig :: TestConfig where
  "noCredentialsConfig = \<lparr>environments =
     [(''local'', localEnvironment), (''staging'', localEnvironment\<lparr>credentials := []\<rparr>)]\<rparr>"

definition blankLoginEnvironment :: TestEnvironmentConfig where
  "blankLoginEnvironment = localEnvironment\<lparr>domainPaths := shippedPaths ''LOCAL'' []\<rparr>"

definition blankLoginConfig :: TestConfig where
  "blankLoginConfig = \<lparr>environments = [(''local'', blankLoginEnvironment)]\<rparr>"

definition localOnlyConfig :: TestConfig where
  "localOnlyConfig = \<lparr>environments = [(''local'', localEnvironment)]\<rparr>"

definition table_satisfies_spec_invariants :: "TestConfig \<Rightarrow> bool" where
  "table_satisfies_spec_invariants tc = list_all (\<lambda>(k, c). spec_invariant c) (environments tc)"

definition all_environments_valid :: "(string \<times> TestEnvironmentConfig) list \<Rightarrow> bool" where
  "all_environments_valid envs = list_all (\<lambda>(k, c). environment_valid c) envs"

text \<open>Contents of \<^verbatim>\<open>process.env\<close> used as examples.\<close>

definition noOverrides :: process_env where
  "noOverrides = Map.empty"

definition baseUrlOverride :: process_env where
  "baseUrlOverride = [''BASE_URL'' \<mapsto> ''https://override.example/'']"

definition rbcUsernameOverride :: process_env where
  "rbcUsernameOverride = [''RBCCLIENT_USERNAME'' \<mapsto> ''CIUSER'']"

text \<open>
  The view of \<^verbatim>\<open>process.env\<close> that keeps the variables with a non-empty value only.
\<close>

definition present_overrides :: "process_env \<Rightarrow> process_env" where
  "present_overrides penv = (\<lambda>k. if truthy (penv k) then penv k else None)"

text \<open>
  The name of the override variables in the words of the specification: the credential
  key in upper case, with every character outside A-Z and 0-9 replaced by an underscore.
  Character by character: a letter a to z becomes its capital, a capital or a digit stays,
  U+00DF has the two-letter upper-case form \<^verbatim>\<open>SS\<close>, and every other character, whose
  upper-case form is no ASCII capital or digit, becomes an underscore.
\<close>

definition deriveOverrideKey_char :: "char \<Rightarrow> string" where
  "deriveOverrideKey_char c =
     (case map_of (zip ''abcdefghijklmnopqrstuvwxyz'' ''ABCDEFGHIJKLMNOPQRSTUVWXYZ'') c of
        Some u \<Rightarrow> [u]
      | None \<Rightarrow>
          if c \<in> set ''ABCDEFGHIJKLMNOPQRSTUVWXYZ0123456789'' then [c]
          else if c = CHR 0xDF then ''SS'' else ''_'')"

definition deriveOverrideKey :: "string \<Rightarrow> string" where
  "deriveOverrideKey credentialKey = concat (map deriveOverrideKey_char credentialKey)"

text \<open>
  A table whose environment \<^verbatim>\<open>local\<close> has a credential key with lower-case letters, a
  dash and a dot, and a \<^verbatim>\<open>process.env\<close> that overrides its password only.
\<close>

definition dashedKeyEnvironment :: TestEnvironmentConfig where
  "dashedKeyEnvironment =
     localEnvironment\<lparr>credentials :=
       [(''rbc-client.2'', \<lparr>username = ''rbc2@localhost'', password = ''rbc123''\<rparr>)]\<rparr>"

definition dashedKeyConfig :: TestConfig where
  "dashedKeyConfig = \<lparr>environments = [(''local'', dashedKeyEnvironment)]\<rparr>"

definition dashedPasswordOverride :: process_env where
  "dashedPasswordOverride = [''RBC_CLIENT_2_PASSWORD'' \<mapsto> ''fromEnv'']"

text \<open>
  The states that calls of the public methods reach from the initial values of the
  static fields. The methods that only read the table through \<^verbatim>\<open>getEnvironmentConfig\<close>
  (\<^verbatim>\<open>getAllDomainPaths\<close>, \<^verbatim>\<open>getAllCredentials\<close>, \<^verbatim>\<open>hasCredentials\<close>,
  \<^verbatim>\<open>getAvailableCredentialKeys\<close>, \<^verbatim>\<open>logConfigSummary\<close>) change the state as that call does.
\<close>

inductive reachable :: "TestConfig \<Rightarrow> ConfigReader \<Rightarrow> bool" for tc :: TestConfig where
  initial: "reachable tc initialState"
| after_setCaching: "reachable tc st \<Longrightarrow> reachable tc (setCaching enabled st)"
| after_clearCache: "reachable tc st \<Longrightarrow> reachable tc (clearCache st)"
| after_setEnvironment:
    "reachable tc st \<Longrightarrow> reachable tc (snd (setEnvironment tc envName st))"
| after_getEnvironmentConfig:
    "reachable tc st \<Longrightarrow> reachable tc (snd (getEnvironmentConfig tc penv optName st))"
| after_getBaseUrl:
    "reachable tc st \<Longrightarrow> reachable tc (snd (getBaseUrl tc penv optName st))"
| after_getDomainPath:
    "reachable tc st \<Longrightarrow> reachable tc (snd (getDomainPath tc penv pathKey optName st))"
| after_getUrl:
    "reachable tc st \<Longrightarrow> reachable tc (snd (getUrl tc penv pathKey optName st))"
| after_getCredentials:
    "reachable tc st
       \<Longrightarrow> reachable tc (snd (getCredentials tc penv credentialKey optName st))"

section \<open>The cache\<close>

lemma cache_consistent_initial: "cache_consistent tc initialState"
  by (simp add: cache_consistent_def initialState_def)

lemma clearCache_consistent: "cache_consistent tc (clearCache st)"
  by (simp add: cache_consistent_def clearCache_def)

lemma setCaching_consistent:
  "cache_consistent tc st \<Longrightarrow> cache_consistent tc (setCaching enabled st)"
  by (simp add: cache_consistent_def clearCache_def setCaching_def Let_def)

lemma setEnvironment_consistent:
  "cache_consistent tc st \<Longrightarrow> cache_consistent tc (snd (setEnvironment tc envName st))"
  by (simp add: setEnvironment_def clearCache_consistent)

lemma cache_consistent_lookup:
  assumes "cache_consistent tc st" and "map_of (cache st) (''env_'' @ env) = Some v"
  shows "js_get (environments tc) env = v \<and> v \<noteq> Undefined"
proof -
  from assms(2) have "(''env_'' @ env, v) \<in> set (cache st)"
    by (rule map_of_SomeD)
  with assms(1) show ?thesis
    by (auto simp: cache_consistent_def list_all_iff)
qed

lemma getEnvironmentConfig_fst:
  assumes "cache_consistent tc st"
  shows "fst (getEnvironmentConfig tc penv envName st)
           = lookupEnvironment tc (resolvedName penv envName st)"
proof (cases "cacheEnabled st")
  case False
  then show ?thesis
    by (simp add: getEnvironmentConfig_def lookupEnvironment_def Let_def split: member.splits)
next
  case True
  show ?thesis
  proof (cases "map_of (cache st) (''env_'' @ resolvedName penv envName st)")
    case None
    with True show ?thesis
      by (simp add: getEnvironmentConfig_def lookupEnvironment_def Let_def split: member.splits)
  next
    case (Some v)
    from cache_consistent_lookup [OF assms Some]
    have "js_get (environments tc) (resolvedName penv envName st) = v" and "v \<noteq> Undefined"
      by simp_all
    with True Some show ?thesis
      by (simp add: getEnvironmentConfig_def lookupEnvironment_def Let_def split: member.splits)
  qed
qed

lemma getEnvironmentConfig_eq:
  assumes "cache_consistent tc st"
  shows "getEnvironmentConfig tc penv envName st
           = (lookupEnvironment tc (resolvedName penv envName st),
              snd (getEnvironmentConfig tc penv envName st))"
  using getEnvironmentConfig_fst [OF assms, of penv envName]
  by (simp add: prod_eq_iff)

lemma set_AList_update: "set (AList.update k v al) \<subseteq> insert (k, v) (set al)"
  by (induction al) auto

lemma getEnvironmentConfig_consistent:
  assumes "cache_consistent tc st"
  shows "cache_consistent tc (snd (getEnvironmentConfig tc penv envName st))"
proof -
  have upd: "cache_consistent tc (st\<lparr>cache := AList.update k v (cache st)\<rparr>)"
    if "take 4 k = ''env_''" and "js_get (environments tc) (drop 4 k) = v" and "v \<noteq> Undefined"
    for k v
    using assms that set_AList_update [of k v "cache st"]
    by (auto simp: cache_consistent_def list_all_iff)
  show ?thesis
    using assms
    by (auto simp: getEnvironmentConfig_def Let_def intro!: upd split: option.splits member.splits)
qed

lemma getEnvironmentConfig_again:
  "getEnvironmentConfig tc penv envName (snd (getEnvironmentConfig tc penv envName st))
     = getEnvironmentConfig tc penv envName st"
proof -
  have rn: "resolvedName penv envName (st\<lparr>cache := c\<rparr>) = resolvedName penv envName st" for c
    by (simp add: resolvedName_def getEnvironmentName_def)
  show ?thesis
    by (auto simp: getEnvironmentConfig_def Let_def rn AList.update_conv'
             split: option.splits member.splits)
qed

lemma getBaseUrl_snd:
  "snd (getBaseUrl tc penv envName st)
     = (if truthy (penv ''BASE_URL'') then st
        else snd (getEnvironmentConfig tc penv envName st))"
  by (simp add: getBaseUrl_def split: prod.splits sum.splits member.splits option.splits)

lemma getDomainPath_snd:
  "snd (getDomainPath tc penv pathKey envName st) = snd (getEnvironmentConfig tc penv envName st)"
  by (simp add: getDomainPath_def Let_def split: prod.splits sum.splits member.splits)

lemma getCredentials_snd:
  "snd (getCredentials tc penv credentialKey envName st)
     = snd (getEnvironmentConfig tc penv envName st)"
  by (simp add: getCredentials_def Let_def split: prod.splits sum.splits member.splits)

lemma getBaseUrl_consistent:
  "cache_consistent tc st \<Longrightarrow> cache_consistent tc (snd (getBaseUrl tc penv envName st))"
  by (simp add: getBaseUrl_snd getEnvironmentConfig_consistent)

lemma getDomainPath_consistent:
  "cache_consistent tc st \<Longrightarrow> cache_consistent tc (snd (getDomainPath tc penv pathKey envName st))"
  by (simp add: getDomainPath_snd getEnvironmentConfig_consistent)

lemma getUrl_consistent:
  "cache_consistent tc st \<Longrightarrow> cache_consistent tc (snd (getUrl tc penv pathKey envName st))"
proof -
  assume c: "cache_consistent tc st"
  have "snd (getUrl tc penv pathKey envName st) = snd (getBaseUrl tc penv envName st)
      \<or> snd (getUrl tc penv pathKey envName st)
          = snd (getDomainPath tc penv pathKey envName (snd (getBaseUrl tc penv envName st)))"
    by (auto simp: getUrl_def Let_def split: prod.splits sum.splits member.splits)
  then show ?thesis
    using c by (auto simp: getBaseUrl_consistent getDomainPath_consistent)
qed

lemma getCredentials_consistent:
  "cache_consistent tc st
     \<Longrightarrow> cache_consistent tc (snd (getCredentials tc penv credentialKey envName st))"
  by (simp add: getCredentials_snd getEnvironmentConfig_consistent)

section \<open>What the lookups return\<close>

lemma getBaseUrl_fst:
  assumes "cache_consistent tc st"
  shows "fst (getBaseUrl tc penv envName st)
     = (if truthy (penv ''BASE_URL'') then Inr (the (penv ''BASE_URL''))
        else case lookupEnvironment tc (resolvedName penv envName st) of
               Inl e \<Rightarrow> Inl e
             | Inr (Own c) \<Rightarrow>
                 (case urlConfig c of
                    Some u \<Rightarrow> Inr (buildBaseUrl penv u None)
                  | None \<Rightarrow>
                      if baseUrl c \<noteq> [] then Inr (baseUrl c)
                      else Inl (Error MissingBaseUrl
                                 (''No baseUrl or urlConfig found for environment: '' @ name c)))
             | Inr (Inherited k) \<Rightarrow>
                 Inl (Error MissingBaseUrl
                       (''No baseUrl or urlConfig found for environment: '' @ inherited_name k))
             | Inr Undefined \<Rightarrow> Inl TypeError)"
  by (subst getBaseUrl_def, subst getEnvironmentConfig_eq [OF assms])
     (simp split: sum.splits member.splits option.splits)

lemma getDomainPath_fst:
  assumes "cache_consistent tc st"
    and "js_get (environments tc) (resolvedName penv envName st) = Own c"
  shows "fst (getDomainPath tc penv pathKey envName st)
     = (case js_get (domainPaths c) pathKey of
          Own p \<Rightarrow> if p \<noteq> [] then Inr (Own p)
                   else Inl (Error UnknownPath
                       (''Domain path \"'' @ pathKey @ ''\" not found for environment \"'' @ name c
                        @ ''\". Available paths: '' @ join '', '' (object_keys (domainPaths c))))
        | Inherited k \<Rightarrow> Inr (Inherited k)
        | Undefined \<Rightarrow> Inl (Error UnknownPath
                       (''Domain path \"'' @ pathKey @ ''\" not found for environment \"'' @ name c
                        @ ''\". Available paths: '' @ join '', '' (object_keys (domainPaths c)))))"
  using assms(2)
  by (subst getDomainPath_def, subst getEnvironmentConfig_eq [OF assms(1)])
     (simp add: lookupEnvironment_def Let_def split: member.splits)

lemma getCredentials_fst:
  assumes "cache_consistent tc st"
    and "js_get (environments tc) (resolvedName penv envName st) = Own c"
  shows "fst (getCredentials tc penv credentialKey envName st)
     = (case js_get (credentials c) credentialKey of
          Own cr \<Rightarrow>
            Inr \<lparr>username = js_or (penv (envKeyPrefix credentialKey @ ''_USERNAME''))
                               (Some (username cr)),
                 password = js_or (penv (envKeyPrefix credentialKey @ ''_PASSWORD''))
                               (Some (password cr))\<rparr>
        | Inherited k \<Rightarrow>
            Inr \<lparr>username = js_or (penv (envKeyPrefix credentialKey @ ''_USERNAME'')) None,
                 password = js_or (penv (envKeyPrefix credentialKey @ ''_PASSWORD'')) None\<rparr>
        | Undefined \<Rightarrow>
            Inl (Error UnknownCredential
                  (''Credentials \"'' @ credentialKey @ ''\" not found for environment \"''
                   @ name c @ ''\". Available: '' @ join '', '' (object_keys (credentials c)))))"
  using assms(2)
  by (subst getCredentials_def, subst getEnvironmentConfig_eq [OF assms(1)])
     (simp add: lookupEnvironment_def Let_def split: member.splits)

lemma lookup_unknown_fails:
  assumes "cache_consistent tc st"
    and "js_get (environments tc) (resolvedName penv envName st) = Undefined"
  shows "fst (getEnvironmentConfig tc penv envName st)
           = lookupEnvironment tc (resolvedName penv envName st)"
    and "fst (getDomainPath tc penv pathKey envName st)
           = map_sum id (\<lambda>_. Undefined) (lookupEnvironment tc (resolvedName penv envName st))"
    and "fst (getCredentials tc penv credentialKey envName st)
           = map_sum id (\<lambda>_. \<lparr>username = None, password = None\<rparr>)
               (lookupEnvironment tc (resolvedName penv envName st))"
proof -
  show "fst (getEnvironmentConfig tc penv envName st)
           = lookupEnvironment tc (resolvedName penv envName st)"
    by (rule getEnvironmentConfig_fst [OF assms(1)])
  show "fst (getDomainPath tc penv pathKey envName st)
           = map_sum id (\<lambda>_. Undefined) (lookupEnvironment tc (resolvedName penv envName st))"
    using assms(2)
    by (subst getDomainPath_def, subst getEnvironmentConfig_eq [OF assms(1)])
       (simp add: lookupEnvironment_def)
  show "fst (getCredentials tc penv credentialKey envName st)
           = map_sum id (\<lambda>_. \<lparr>username = None, password = None\<rparr>)
               (lookupEnvironment tc (resolvedName penv envName st))"
    using assms(2)
    by (subst getCredentials_def, subst getEnvironmentConfig_eq [OF assms(1)])
       (simp add: lookupEnvironment_def)
qed

text \<open>\<^verbatim>\<open>getUrl\<close> in terms of the two lookups from the same state.\<close>

lemma getDomainPath_after_getBaseUrl:
  "fst (getDomainPath tc penv pathKey envName (snd (getBaseUrl tc penv envName st)))
     = fst (getDomainPath tc penv pathKey envName st)"
  by (simp add: getBaseUrl_snd getDomainPath_def getEnvironmentConfig_again)

lemma getUrl_fst:
  "fst (getUrl tc penv pathKey envName st)
     = (case fst (getBaseUrl tc penv envName st) of
          Inl e \<Rightarrow> Inl e
        | Inr b \<Rightarrow>
            (case fst (getDomainPath tc penv pathKey envName st) of
               Inl e \<Rightarrow> Inl e
             | Inr (Own p) \<Rightarrow>
                 Inr (replace_slash_at_end b @ (if startsWith_slash p then p else ''/'' @ p))
             | Inr _ \<Rightarrow> Inl TypeError))"
proof -
  obtain r1 st1 where b: "getBaseUrl tc penv envName st = (r1, st1)"
    by (cases "getBaseUrl tc penv envName st")
  obtain r2 st2 where d: "getDomainPath tc penv pathKey envName st1 = (r2, st2)"
    by (cases "getDomainPath tc penv pathKey envName st1")
  from getDomainPath_after_getBaseUrl [of tc penv pathKey envName st] b d
  have "fst (getDomainPath tc penv pathKey envName st) = r2"
    by simp
  with b d show ?thesis
    by (simp add: getUrl_def Let_def split: sum.splits member.splits)
qed

lemma replace_slash_at_end_eq: "replace_slash_at_end s = stripTrailingSlash s"
  by (induction s) (auto simp: stripTrailingSlash_def)

lemma ensureLeadingSlash_eq:
  "(if startsWith_slash p then p else ''/'' @ p) = ensureLeadingSlash p"
  by (cases p) (auto simp: startsWith_slash_def ensureLeadingSlash_def)

lemma js_get_Own_iff: "js_get obj k = Own v \<longleftrightarrow> map_of obj k = Some v"
  by (simp add: js_get_def split: option.splits)

lemma js_get_Undefined_iff:
  "js_get obj k = Undefined \<longleftrightarrow> k \<notin> fst ` set obj \<and> k \<notin> set object_prototype_keys"
proof (cases "map_of obj k")
  case None
  then have "k \<notin> fst ` set obj"
    by (simp add: map_of_eq_None_iff)
  with None show ?thesis
    by (simp add: js_get_def)
next
  case (Some v)
  then have "k \<in> fst ` set obj"
    by (metis map_of_eq_None_iff option.distinct(1))
  with Some show ?thesis
    by (simp add: js_get_def)
qed

lemma js_or_Some: "js_or a (Some s) = Some (or_str a s)"
  by (simp add: js_or_def or_str_def truthy_def split: option.splits)

section \<open>Credentials\<close>

lemma envKeyPrefix_char:
  "replace_non_AZ09 (toUpperCase_char c) = deriveOverrideKey_char c"
proof (cases c)
  case (Char b0 b1 b2 b3 b4 b5 b6 b7)
  show ?thesis
    unfolding Char
    by (cases b0; cases b1; cases b2; cases b3; cases b4; cases b5; cases b6; cases b7;
        simp add: replace_non_AZ09_def toUpperCase_char_def deriveOverrideKey_char_def
          is_AZ09_def clear_bit5_def)
qed

lemma replace_non_AZ09_append:
  "replace_non_AZ09 (xs @ ys) = replace_non_AZ09 xs @ replace_non_AZ09 ys"
  by (simp add: replace_non_AZ09_def)

text \<open>
  The prefix that \<^verbatim>\<open>getCredentials\<close> computes with \<^verbatim>\<open>toUpperCase\<close> and the regular
  expression is the one the specification describes.
\<close>

lemma envKeyPrefix_eq: "envKeyPrefix credentialKey = deriveOverrideKey credentialKey"
proof (induction credentialKey)
  case Nil
  show ?case
    by (simp add: envKeyPrefix_def toUpperCase_def deriveOverrideKey_def replace_non_AZ09_def)
next
  case (Cons c cs)
  then show ?case
    by (simp add: envKeyPrefix_def toUpperCase_def deriveOverrideKey_def
          replace_non_AZ09_append envKeyPrefix_char)
qed

text \<open>
  C1. For an environment \<open>n\<close> of the table and a credential key of its \<^verbatim>\<open>credentials\<close>,
  \<^verbatim>\<open>getCredentials(credentialKey, n)\<close> returns the table's pair with each field replaced,
  independently of the other, by the value of its override variable when that variable
  holds a non-empty value. The variables are named by the credential key in upper case
  with every character outside A-Z and 0-9 replaced by an underscore, followed by
  \<^verbatim>\<open>_USERNAME\<close> and \<^verbatim>\<open>_PASSWORD\<close>.
\<close>

theorem getCredentials_per_field_override:
  assumes "cache_consistent tc st"
    and "n \<noteq> []"
    and "map_of (environments tc) n = Some c"
    and "map_of (credentials c) credentialKey = Some cr"
  shows "fst (getCredentials tc penv credentialKey (Some n) st)
     = Inr \<lparr>username =
              Some (case penv (deriveOverrideKey credentialKey @ ''_USERNAME'') of
                      None \<Rightarrow> username cr
                    | Some v \<Rightarrow> if v = [] then username cr else v),
            password =
              Some (case penv (deriveOverrideKey credentialKey @ ''_PASSWORD'') of
                      None \<Rightarrow> password cr
                    | Some v \<Rightarrow> if v = [] then password cr else v)\<rparr>"
proof -
  from assms(2) have rn: "resolvedName penv (Some n) st = n"
    by (simp add: resolvedName_def truthy_def)
  from assms(3) have e: "js_get (environments tc) (resolvedName penv (Some n) st) = Own c"
    by (simp add: rn js_get_Own_iff)
  from assms(4) have k: "js_get (credentials c) credentialKey = Own cr"
    by (simp add: js_get_Own_iff)
  show ?thesis
    by (simp add: getCredentials_fst [OF assms(1) e] k js_or_Some envKeyPrefix_eq or_str_def
          split: option.splits)
qed

text \<open>
  The key \<^verbatim>\<open>rbc-client.2\<close> of the environment \<^verbatim>\<open>local\<close> has the prefix
  \<^verbatim>\<open>RBC_CLIENT_2\<close>: with only \<^verbatim>\<open>RBC_CLIENT_2_PASSWORD\<close> set, the password is the
  override and the username the table's. On the shipped table, with only
  \<^verbatim>\<open>RBCCLIENT_USERNAME\<close> set, \<^verbatim>\<open>getCredentials('RBCClient', 'QA')\<close> returns the override
  as username and the table's password.
\<close>

theorem getCredentials_per_field_override_witness:
  "cache_consistent dashedKeyConfig initialState
   \<and> map_of (environments dashedKeyConfig) ''local'' = Some dashedKeyEnvironment
   \<and> map_of (credentials dashedKeyEnvironment) ''rbc-client.2''
       = Some \<lparr>username = ''rbc2@localhost'', password = ''rbc123''\<rparr>
   \<and> deriveOverrideKey ''rbc-client.2'' = ''RBC_CLIENT_2''
   \<and> fst (getCredentials dashedKeyConfig dashedPasswordOverride ''rbc-client.2''
            (Some ''local'') initialState)
       = Inr \<lparr>username = Some ''rbc2@localhost'', password = Some ''fromEnv''\<rparr>
   \<and> cache_consistent testConfig initialState
   \<and> map_of (environments testConfig) ''QA'' = Some qaEnvironment
   \<and> map_of (credentials qaEnvironment) ''RBCClient''
       = Some \<lparr>username = ''MIJIRBC'', password = ''Assetuse@1''\<rparr>
   \<and> deriveOverrideKey ''RBCClient'' = ''RBCCLIENT''
   \<and> fst (getCredentials testConfig rbcUsernameOverride ''RBCClient'' (Some ''QA'') initialState)
       = Inr \<lparr>username = Some ''CIUSER'', password = Some ''Assetuse@1''\<rparr>"
proof -
  have h1: "cache_consistent tc initialState" for tc
    by (rule cache_consistent_initial)
  have ne: "''local'' \<noteq> []" "''QA'' \<noteq> []"
    by simp_all
  have d2: "map_of (environments dashedKeyConfig) ''local'' = Some dashedKeyEnvironment"
    by (simp add: dashedKeyConfig_def)
  have d3: "map_of (credentials dashedKeyEnvironment) ''rbc-client.2''
              = Some \<lparr>username = ''rbc2@localhost'', password = ''rbc123''\<rparr>"
    by (simp add: dashedKeyEnvironment_def)
  have d4: "deriveOverrideKey ''rbc-client.2'' = ''RBC_CLIENT_2''"
    by (simp add: deriveOverrideKey_def deriveOverrideKey_char_def)
  have q2: "map_of (environments testConfig) ''QA'' = Some qaEnvironment"
    by (simp add: testConfig_def)
  have q3: "map_of (credentials qaEnvironment) ''RBCClient''
              = Some \<lparr>username = ''MIJIRBC'', password = ''Assetuse@1''\<rparr>"
    by (simp add: qaEnvironment_def)
  have q4: "deriveOverrideKey ''RBCClient'' = ''RBCCLIENT''"
    by (simp add: deriveOverrideKey_def deriveOverrideKey_char_def)
  from getCredentials_per_field_override [OF h1 ne(1) d2 d3, of dashedPasswordOverride]
  have d: "fst (getCredentials dashedKeyConfig dashedPasswordOverride ''rbc-client.2''
                 (Some ''local'') initialState)
             = Inr \<lparr>username = Some ''rbc2@localhost'', password = Some ''fromEnv''\<rparr>"
    by (simp add: d4 dashedPasswordOverride_def)
  from getCredentials_per_field_override [OF h1 ne(2) q2 q3, of rbcUsernameOverride]
  have q: "fst (getCredentials testConfig rbcUsernameOverride ''RBCClient'' (Some ''QA'')
                 initialState)
             = Inr \<lparr>username = Some ''CIUSER'', password = Some ''Assetuse@1''\<rparr>"
    by (simp add: q4 rbcUsernameOverride_def)
  from h1 d2 d3 d4 d q2 q3 q4 q show ?thesis
    by simp
qed

section \<open>Base URL\<close>

text \<open>
  C2. For a name that resolves to an environment of the table, \<^verbatim>\<open>getBaseUrl\<close> returns
  the value of \<^verbatim>\<open>BASE_URL\<close> as it is when that variable is set to a non-empty value;
  otherwise \<^verbatim>\<open>buildBaseUrl(urlConfig)\<close> when the environment has a \<^verbatim>\<open>urlConfig\<close>;
  otherwise its \<^verbatim>\<open>baseUrl\<close> when that is non-empty; otherwise it fails with the error
  that names the environment.
\<close>

theorem getBaseUrl_precedence:
  assumes "cache_consistent tc st"
    and "map_of (environments tc) (resolvedName penv envName st) = Some c"
  shows "fst (getBaseUrl tc penv envName st)
     = (if truthy (penv ''BASE_URL'') then Inr (the (penv ''BASE_URL''))
        else case urlConfig c of
               Some u \<Rightarrow> Inr (buildBaseUrl penv u None)
             | None \<Rightarrow>
                 if baseUrl c \<noteq> [] then Inr (baseUrl c)
                 else Inl (Error MissingBaseUrl
                            (''No baseUrl or urlConfig found for environment: '' @ name c)))"
proof -
  from assms(2) have e: "js_get (environments tc) (resolvedName penv envName st) = Own c"
    by (simp add: js_get_Own_iff)
  show ?thesis
    by (simp add: getBaseUrl_fst [OF assms(1)] lookupEnvironment_def e)
qed

text \<open>
  On the shipped table, QA has a \<^verbatim>\<open>urlConfig\<close>; with \<^verbatim>\<open>BASE_URL\<close> set the override
  is returned as it is.
\<close>

theorem getBaseUrl_precedence_witness:
  "cache_consistent testConfig initialState
   \<and> map_of (environments testConfig) (resolvedName baseUrlOverride (Some ''QA'') initialState)
       = Some qaEnvironment
   \<and> urlConfig qaEnvironment \<noteq> None
   \<and> fst (getBaseUrl testConfig baseUrlOverride (Some ''QA'') initialState)
       = Inr ''https://override.example/''"
proof -
  have h1: "cache_consistent testConfig initialState"
    by (rule cache_consistent_initial)
  have h2: "map_of (environments testConfig)
              (resolvedName baseUrlOverride (Some ''QA'') initialState) = Some qaEnvironment"
    by (simp add: testConfig_def resolvedName_def truthy_def)
  have h3: "urlConfig qaEnvironment \<noteq> None"
    by (simp add: qaEnvironment_def)
  from getBaseUrl_precedence [OF h1 h2] h1 h2 h3 show ?thesis
    by (simp add: baseUrlOverride_def truthy_def)
qed

section \<open>The active environment and the cache\<close>

text \<open>
  C3. \<^verbatim>\<open>setEnvironment\<close> is to set the active environment, so that
  \<^verbatim>\<open>getEnvironmentName\<close> returns it afterwards. The method assigns the name and then
  calls \<^verbatim>\<open>clearCache\<close>, which resets the field: on the shipped table,
  \<^verbatim>\<open>setEnvironment('dev')\<close> succeeds and empties the cache, and with \<^verbatim>\<open>TEST_ENV\<close>
  unset \<^verbatim>\<open>getEnvironmentName()\<close> then returns \<^verbatim>\<open>QA\<close>, not \<^verbatim>\<open>dev\<close>.
\<close>

theorem setEnvironment_name_lost:
  "fst (setEnvironment testConfig ''dev'' initialState) = Inr ()
   \<and> cache (snd (setEnvironment testConfig ''dev'' initialState)) = []
   \<and> currentEnvironment (snd (setEnvironment testConfig ''dev'' initialState)) = None
   \<and> getEnvironmentName noOverrides (snd (setEnvironment testConfig ''dev'' initialState)) = ''QA''"
  by (simp add: setEnvironment_def hasEnvironment_def js_in_def js_get_def testConfig_def
        clearCache_def initialState_def getEnvironmentName_def truthy_def or_str_def
        noOverrides_def)

text \<open>
  The failure half of C3, for the record: a name that is neither a key of the table nor
  the name of an inherited member is rejected, with the table's keys in the message, and
  the state is left as it was.
\<close>

lemma setEnvironment_unknown:
  assumes "envName \<notin> fst ` set (environments tc)" and "envName \<notin> set object_prototype_keys"
  shows "setEnvironment tc envName st
     = (Inl (Error UnknownEnvironment
              (''Environment \"'' @ envName @ ''\" not found. Available environments: ''
               @ join '', '' (map fst (environments tc)))), st)"
proof -
  from assms have "js_get (environments tc) envName = Undefined"
    by (simp add: js_get_Undefined_iff)
  then show ?thesis
    by (simp add: setEnvironment_def hasEnvironment_def js_in_def getAvailableEnvironments_def
          object_keys_def)
qed

text \<open>
  The same on every table and from every state: after a call that succeeds, the name
  that \<^verbatim>\<open>getEnvironmentName\<close> returns does not depend on the name that was set.
\<close>

lemma setEnvironment_then_getEnvironmentName:
  "getEnvironmentName penv (snd (setEnvironment tc envName st))
     = (if hasEnvironment tc envName then or_str (penv ''TEST_ENV'') ''QA''
        else getEnvironmentName penv st)"
  by (simp add: setEnvironment_def clearCache_def getEnvironmentName_def truthy_def)

text \<open>
  What \<^verbatim>\<open>clearCache\<close> and \<^verbatim>\<open>setCaching(false)\<close> do to the fields: the cache is
  emptied, the explicitly set name is reset, the caching switch is left alone by
  \<^verbatim>\<open>clearCache\<close>.
\<close>

lemma clearCache_effect:
  "cache (clearCache st) = []
   \<and> currentEnvironment (clearCache st) = None
   \<and> cacheEnabled (clearCache st) = cacheEnabled st
   \<and> getEnvironmentName penv (clearCache st) = or_str (penv ''TEST_ENV'') ''QA''
   \<and> cache (setCaching False st) = []
   \<and> cacheEnabled (setCaching False st) = False"
  by (simp add: clearCache_def setCaching_def getEnvironmentName_def truthy_def)

text \<open>
  No sequence of calls leaves a name in \<^verbatim>\<open>currentEnvironment\<close>: the only method that
  assigns one, \<^verbatim>\<open>setEnvironment\<close>, resets it before it returns. Every reachable state
  has a consistent cache, and \<^verbatim>\<open>getEnvironmentName\<close> returns \<^verbatim>\<open>TEST_ENV\<close> or \<^verbatim>\<open>QA\<close>
  in it.
\<close>

lemma getEnvironmentConfig_currentEnvironment:
  "currentEnvironment (snd (getEnvironmentConfig tc penv optName st)) = currentEnvironment st"
  by (auto simp: getEnvironmentConfig_def Let_def split: option.splits member.splits)

lemma getUrl_snd:
  "snd (getUrl tc penv pathKey optName st) = snd (getBaseUrl tc penv optName st)
   \<or> snd (getUrl tc penv pathKey optName st)
       = snd (getDomainPath tc penv pathKey optName (snd (getBaseUrl tc penv optName st)))"
  by (auto simp: getUrl_def Let_def split: prod.splits sum.splits member.splits)

lemma reachable_currentEnvironment:
  "reachable tc st \<Longrightarrow> currentEnvironment st = None"
proof (induction rule: reachable.induct)
  case initial
  show ?case by (simp add: initialState_def)
next
  case (after_setCaching st enabled)
  then show ?case by (simp add: setCaching_def clearCache_def Let_def)
next
  case (after_clearCache st)
  show ?case by (simp add: clearCache_def)
next
  case (after_setEnvironment st envName)
  then show ?case by (simp add: setEnvironment_def clearCache_def)
next
  case (after_getEnvironmentConfig st penv optName)
  then show ?case by (simp add: getEnvironmentConfig_currentEnvironment)
next
  case (after_getBaseUrl st penv optName)
  then show ?case by (simp add: getBaseUrl_snd getEnvironmentConfig_currentEnvironment)
next
  case (after_getDomainPath st penv pathKey optName)
  then show ?case by (simp add: getDomainPath_snd getEnvironmentConfig_currentEnvironment)
next
  case (after_getUrl st penv pathKey optName)
  with getUrl_snd [of tc penv pathKey optName st] show ?case
    by (auto simp: getBaseUrl_snd getDomainPath_snd getEnvironmentConfig_currentEnvironment)
next
  case (after_getCredentials st penv credentialKey optName)
  then show ?case by (simp add: getCredentials_snd getEnvironmentConfig_currentEnvironment)
qed

lemma reachable_cache_consistent: "reachable tc st \<Longrightarrow> cache_consistent tc st"
  by (induction rule: reachable.induct)
     (simp_all add: cache_consistent_initial setCaching_consistent clearCache_consistent
        setEnvironment_consistent getEnvironmentConfig_consistent getBaseUrl_consistent
        getDomainPath_consistent getUrl_consistent getCredentials_consistent)

lemma reachable_getEnvironmentName:
  "reachable tc st \<Longrightarrow> getEnvironmentName penv st = or_str (penv ''TEST_ENV'') ''QA''"
  by (simp add: getEnvironmentName_def truthy_def reachable_currentEnvironment)

text \<open>
  C5. \<^verbatim>\<open>clearCache\<close> is to drop the cached entries and keep the environment name set
  with \<^verbatim>\<open>setEnvironment\<close>. It does drop the entries, but the name does not survive: on
  the shipped table, after \<^verbatim>\<open>setEnvironment('dev')\<close>, which succeeds, and
  \<^verbatim>\<open>clearCache()\<close>, with \<^verbatim>\<open>TEST_ENV\<close> unset, \<^verbatim>\<open>getEnvironmentName()\<close> returns \<^verbatim>\<open>QA\<close>,
  not \<^verbatim>\<open>dev\<close>.
\<close>

theorem clearCache_after_setEnvironment:
  "fst (setEnvironment testConfig ''dev'' initialState) = Inr ()
   \<and> cache (clearCache (snd (setEnvironment testConfig ''dev'' initialState))) = []
   \<and> getEnvironmentName noOverrides
        (clearCache (snd (setEnvironment testConfig ''dev'' initialState))) = ''QA''"
  by (simp add: setEnvironment_def hasEnvironment_def js_in_def js_get_def testConfig_def
        clearCache_def initialState_def getEnvironmentName_def truthy_def or_str_def
        noOverrides_def)

section \<open>Complete URLs\<close>

text \<open>
  C6. Whenever \<^verbatim>\<open>getBaseUrl\<close> and \<^verbatim>\<open>getDomainPath\<close> both return a string for a path
  key and an environment name, \<^verbatim>\<open>getUrl\<close> returns the base URL without its trailing
  slash, if it has one, followed by the path, with a slash put in front unless it starts
  with one.
\<close>

theorem getUrl_composition:
  assumes "fst (getBaseUrl tc penv envName st) = Inr b"
    and "fst (getDomainPath tc penv pathKey envName st) = Inr (Own p)"
  shows "fst (getUrl tc penv pathKey envName st)
           = Inr (stripTrailingSlash b @ ensureLeadingSlash p)"
  using assms
  by (simp add: getUrl_fst replace_slash_at_end_eq ensureLeadingSlash_eq)

text \<open>
  A base URL that ends in a slash and a path that starts without one: the override
  \<^verbatim>\<open>https://override.example/\<close> and the path \<^verbatim>\<open>site\<close> of QA.
\<close>

theorem getUrl_composition_witness:
  "fst (getBaseUrl testConfig baseUrlOverride (Some ''QA'') initialState)
     = Inr ''https://override.example/''
   \<and> fst (getDomainPath testConfig baseUrlOverride ''site'' (Some ''QA'') initialState)
       = Inr (Own ''QA'')
   \<and> fst (getUrl testConfig baseUrlOverride ''site'' (Some ''QA'') initialState)
       = Inr ''https://override.example/QA''"
proof -
  have e: "js_get (environments testConfig)
             (resolvedName baseUrlOverride (Some ''QA'') initialState) = Own qaEnvironment"
    by (simp add: testConfig_def resolvedName_def truthy_def js_get_def)
  have h1: "fst (getBaseUrl testConfig baseUrlOverride (Some ''QA'') initialState)
              = Inr ''https://override.example/''"
    by (simp add: getBaseUrl_fst [OF cache_consistent_initial] baseUrlOverride_def truthy_def)
  have h2: "fst (getDomainPath testConfig baseUrlOverride ''site'' (Some ''QA'') initialState)
              = Inr (Own ''QA'')"
    by (simp add: getDomainPath_fst [OF cache_consistent_initial e] qaEnvironment_def
          shippedPaths_def js_get_def)
  from getUrl_composition [OF h1 h2] h1 h2 show ?thesis
    by (simp add: stripTrailingSlash_def ensureLeadingSlash_def)
qed

text \<open>
  C9. On the shipped table, with no override variable set, \<^verbatim>\<open>getUrl('login', 'QA')\<close>
  returns \<^verbatim>\<open>https://qa2repohighway.devservices.dh.com/go.aspx\<close>, whatever
  \<^verbatim>\<open>getEnvironmentConfig\<close> has cached so far.
\<close>

theorem getUrl_login_QA:
  assumes "cache_consistent testConfig st"
  shows "fst (getUrl testConfig noOverrides ''login'' (Some ''QA'') st)
           = Inr ''https://qa2repohighway.devservices.dh.com/go.aspx''"
proof -
  have e: "js_get (environments testConfig) (resolvedName penv (Some ''QA'') st)
             = Own qaEnvironment" for penv
    by (simp add: testConfig_def resolvedName_def truthy_def js_get_def)
  have b: "fst (getBaseUrl testConfig noOverrides (Some ''QA'') st)
             = Inr ''https://qa2repohighway.devservices.dh.com''"
    by (simp add: getBaseUrl_fst [OF assms] lookupEnvironment_def e noOverrides_def truthy_def
          qaEnvironment_def buildBaseUrl_def or_str_def)
  have p: "fst (getDomainPath testConfig noOverrides ''login'' (Some ''QA'') st)
             = Inr (Own ''/go.aspx'')"
    by (simp add: getDomainPath_fst [OF assms e] qaEnvironment_def shippedPaths_def js_get_def)
  show ?thesis
    by (simp add: getUrl_fst b p startsWith_slash_def)
qed

theorem getUrl_login_QA_witness:
  "cache_consistent testConfig initialState
   \<and> fst (getUrl testConfig noOverrides ''login'' (Some ''QA'') initialState)
       = Inr ''https://qa2repohighway.devservices.dh.com/go.aspx''"
  using getUrl_login_QA [OF cache_consistent_initial] cache_consistent_initial
  by simp

section \<open>Override variables that are set to the empty string\<close>

lemma present_overrides_empty:
  "present_overrides (penv(slot \<mapsto> [])) = present_overrides (penv(slot := None))"
  by (auto simp: present_overrides_def truthy_def fun_eq_iff)

lemma truthy_present: "truthy (present_overrides penv k) = truthy (penv k)"
  by (simp add: present_overrides_def truthy_def)

lemma or_str_present: "or_str (present_overrides penv k) d = or_str (penv k) d"
  by (simp add: present_overrides_def truthy_def or_str_def split: option.splits)

lemma js_or_present: "js_or (present_overrides penv k) b = js_or (penv k) b"
  by (simp add: present_overrides_def js_or_def truthy_def split: option.splits)

lemma the_present: "truthy (penv k) \<Longrightarrow> the (present_overrides penv k) = the (penv k)"
  by (simp add: present_overrides_def)

lemma getEnvironmentConfig_present:
  "getEnvironmentConfig tc (present_overrides penv) envName st
     = getEnvironmentConfig tc penv envName st"
  by (simp add: getEnvironmentConfig_def resolvedName_def getEnvironmentName_def or_str_present)

lemma buildBaseUrl_present:
  "buildBaseUrl (present_overrides penv) u ov = buildBaseUrl penv u ov"
  by (simp add: buildBaseUrl_def or_str_present)

lemma getBaseUrl_present:
  "getBaseUrl tc (present_overrides penv) envName st = getBaseUrl tc penv envName st"
  by (simp add: getBaseUrl_def getEnvironmentConfig_present buildBaseUrl_present
        truthy_present the_present
      split: prod.splits sum.splits member.splits option.splits)

lemma getCredentials_present:
  "getCredentials tc (present_overrides penv) credentialKey envName st
     = getCredentials tc penv credentialKey envName st"
  by (simp add: getCredentials_def getEnvironmentConfig_present js_or_present Let_def
      split: prod.splits sum.splits member.splits)

text \<open>
  C10. An override variable that is set to the empty string has the effect of one that
  is not set: for every variable \<open>slot\<close>, among them \<^verbatim>\<open>BASE_URL\<close>, \<^verbatim>\<open>ENV_PREFIX\<close>,
  \<^verbatim>\<open>SUBDOMAIN\<close>, \<^verbatim>\<open>TEST_ENV\<close> and the username and password variables derived from a
  credential key, \<^verbatim>\<open>getBaseUrl\<close>, \<^verbatim>\<open>buildBaseUrl\<close> and \<^verbatim>\<open>getCredentials\<close> return the
  same result and leave the same state in both cases.
\<close>

theorem empty_override_same_as_absent:
  "getBaseUrl tc (penv(slot \<mapsto> [])) envName st = getBaseUrl tc (penv(slot := None)) envName st
   \<and> buildBaseUrl (penv(slot \<mapsto> [])) u ov = buildBaseUrl (penv(slot := None)) u ov
   \<and> getCredentials tc (penv(slot \<mapsto> [])) credentialKey envName st
       = getCredentials tc (penv(slot := None)) credentialKey envName st"
proof -
  let ?e = "penv(slot \<mapsto> [])" and ?a = "penv(slot := None)"
  have eq: "present_overrides ?e = present_overrides ?a"
    by (rule present_overrides_empty)
  have "getBaseUrl tc ?e envName st = getBaseUrl tc (present_overrides ?e) envName st"
    by (simp only: getBaseUrl_present)
  also have "\<dots> = getBaseUrl tc ?a envName st"
    by (simp only: eq getBaseUrl_present)
  finally have b: "getBaseUrl tc ?e envName st = getBaseUrl tc ?a envName st" .
  have "buildBaseUrl ?e u ov = buildBaseUrl (present_overrides ?e) u ov"
    by (simp only: buildBaseUrl_present)
  also have "\<dots> = buildBaseUrl ?a u ov"
    by (simp only: eq buildBaseUrl_present)
  finally have u: "buildBaseUrl ?e u ov = buildBaseUrl ?a u ov" .
  have "getCredentials tc ?e credentialKey envName st
          = getCredentials tc (present_overrides ?e) credentialKey envName st"
    by (simp only: getCredentials_present)
  also have "\<dots> = getCredentials tc ?a credentialKey envName st"
    by (simp only: eq getCredentials_present)
  finally have c: "getCredentials tc ?e credentialKey envName st
                     = getCredentials tc ?a credentialKey envName st" .
  from b u c show ?thesis
    by simp
qed

section \<open>Names and keys that the table does not have\<close>

text \<open>
  C7, as the code has it. For a non-empty name that is neither a key of the table nor
  the name of a member inherited from \<^verbatim>\<open>Object.prototype\<close>, \<^verbatim>\<open>getEnvironmentConfig\<close>,
  \<^verbatim>\<open>getDomainPath\<close> and \<^verbatim>\<open>getCredentials\<close> fail with the error that lists the table's
  keys. \<^verbatim>\<open>getBaseUrl\<close> fails in the same way unless \<^verbatim>\<open>BASE_URL\<close> holds a non-empty
  value, which it then returns without looking the name up.
\<close>

theorem unknown_environment_fails:
  assumes "cache_consistent tc st"
    and "n \<noteq> []"
    and "n \<notin> fst ` set (environments tc)"
    and "n \<notin> set object_prototype_keys"
    and "e = Error UnknownEnvironment
               (''Environment \"'' @ n @ ''\" not found in test.config.ts. Available: ''
                @ join '', '' (map fst (environments tc)))"
  shows "fst (getEnvironmentConfig tc penv (Some n) st) = Inl e
       \<and> fst (getDomainPath tc penv pathKey (Some n) st) = Inl e
       \<and> fst (getCredentials tc penv credentialKey (Some n) st) = Inl e
       \<and> fst (getBaseUrl tc penv (Some n) st)
           = (if truthy (penv ''BASE_URL'') then Inr (the (penv ''BASE_URL'')) else Inl e)"
proof -
  from assms(2) have rn: "resolvedName penv (Some n) st = n"
    by (simp add: resolvedName_def truthy_def)
  from assms(3,4) have u: "js_get (environments tc) (resolvedName penv (Some n) st) = Undefined"
    by (simp add: rn js_get_Undefined_iff)
  have l: "lookupEnvironment tc (resolvedName penv (Some n) st) = Inl e"
    using u by (simp add: lookupEnvironment_def rn assms(5) getAvailableEnvironments_def
                  object_keys_def)
  show ?thesis
    by (simp add: lookup_unknown_fails [OF assms(1) u] getBaseUrl_fst [OF assms(1)] l)
qed

theorem unknown_environment_fails_witness:
  "cache_consistent testConfig initialState
   \<and> ''staging'' \<noteq> []
   \<and> ''staging'' \<notin> fst ` set (environments testConfig)
   \<and> ''staging'' \<notin> set object_prototype_keys
   \<and> fst (getCredentials testConfig noOverrides ''admin'' (Some ''staging'') initialState)
       = Inl (Error UnknownEnvironment
               ''Environment \"staging\" not found in test.config.ts. Available: dev, QA, prod, local'')
   \<and> fst (getBaseUrl testConfig noOverrides (Some ''staging'') initialState)
       = Inl (Error UnknownEnvironment
               ''Environment \"staging\" not found in test.config.ts. Available: dev, QA, prod, local'')"
proof -
  have h1: "cache_consistent testConfig initialState"
    by (rule cache_consistent_initial)
  have h2: "''staging'' \<noteq> []"
    by simp
  have h3: "''staging'' \<notin> fst ` set (environments testConfig)"
    by (simp add: testConfig_def)
  have h4: "''staging'' \<notin> set object_prototype_keys"
    by (simp add: object_prototype_keys_def)
  from unknown_environment_fails [OF h1 h2 h3 h4 refl, of noOverrides "''login''" "''admin''"]
    h1 h3 h4
  show ?thesis
    by (simp add: testConfig_def noOverrides_def truthy_def)
qed

text \<open>
  C7 as stated fails: \<^verbatim>\<open>staging\<close> is no key of the shipped table, yet with
  \<^verbatim>\<open>BASE_URL\<close> set \<^verbatim>\<open>getBaseUrl('staging')\<close> returns the override; and the empty name
  is no key either, yet \<^verbatim>\<open>getEnvironmentConfig('')\<close> returns the active environment's
  entry, QA.
\<close>

theorem unknown_environment_counterexample:
  "''staging'' \<notin> fst ` set (environments testConfig)
   \<and> fst (getBaseUrl testConfig baseUrlOverride (Some ''staging'') initialState)
       = Inr ''https://override.example/''
   \<and> [] \<notin> fst ` set (environments testConfig)
   \<and> fst (getEnvironmentConfig testConfig noOverrides (Some []) initialState)
       = Inr (Own qaEnvironment)"
  by (simp add: testConfig_def getBaseUrl_def baseUrlOverride_def truthy_def
        getEnvironmentConfig_def resolvedName_def getEnvironmentName_def initialState_def
        or_str_def noOverrides_def js_get_def)

text \<open>An empty name counts as omitted, in every lookup.\<close>

lemma empty_name_as_omitted:
  "getEnvironmentConfig tc penv (Some []) st = getEnvironmentConfig tc penv None st"
  "getBaseUrl tc penv (Some []) st = getBaseUrl tc penv None st"
  "getDomainPath tc penv pathKey (Some []) st = getDomainPath tc penv pathKey None st"
  "getCredentials tc penv credentialKey (Some []) st = getCredentials tc penv credentialKey None st"
proof -
  show e: "getEnvironmentConfig tc penv (Some []) st = getEnvironmentConfig tc penv None st"
    by (simp add: getEnvironmentConfig_def resolvedName_def truthy_def)
  show "getBaseUrl tc penv (Some []) st = getBaseUrl tc penv None st"
    by (simp add: getBaseUrl_def e)
  show "getDomainPath tc penv pathKey (Some []) st = getDomainPath tc penv pathKey None st"
    by (simp add: getDomainPath_def e)
  show "getCredentials tc penv credentialKey (Some []) st
          = getCredentials tc penv credentialKey None st"
    by (simp add: getCredentials_def e)
qed

text \<open>
  C8, as the code has it. For an environment of the table: \<^verbatim>\<open>getDomainPath\<close> returns
  the stored path when the key is present with a non-empty path; it fails with the error
  that lists the environment's path keys when the key is absent, or present with the
  empty string. \<^verbatim>\<open>getCredentials\<close> returns a pair when the credential key is present,
  and fails with the error that lists the credential keys when it is absent. Absent means
  neither a key of the object nor the name of a member inherited from
  \<^verbatim>\<open>Object.prototype\<close>.
\<close>

theorem path_and_credential_lookup:
  assumes "cache_consistent tc st"
    and "map_of (environments tc) (resolvedName penv envName st) = Some c"
    and "unknownPath = Error UnknownPath
           (''Domain path \"'' @ pathKey @ ''\" not found for environment \"'' @ name c
            @ ''\". Available paths: '' @ join '', '' (map fst (domainPaths c)))"
    and "unknownCredential = Error UnknownCredential
           (''Credentials \"'' @ credentialKey @ ''\" not found for environment \"'' @ name c
            @ ''\". Available: '' @ join '', '' (map fst (credentials c)))"
  shows "(map_of (domainPaths c) pathKey = Some p \<and> p \<noteq> []
            \<longrightarrow> fst (getDomainPath tc penv pathKey envName st) = Inr (Own p))
       \<and> (map_of (domainPaths c) pathKey = Some []
            \<longrightarrow> fst (getDomainPath tc penv pathKey envName st) = Inl unknownPath)
       \<and> (pathKey \<notin> fst ` set (domainPaths c) \<and> pathKey \<notin> set object_prototype_keys
            \<longrightarrow> fst (getDomainPath tc penv pathKey envName st) = Inl unknownPath)
       \<and> (map_of (credentials c) credentialKey = Some cr
            \<longrightarrow> (\<exists>r. fst (getCredentials tc penv credentialKey envName st) = Inr r))
       \<and> (credentialKey \<notin> fst ` set (credentials c)
              \<and> credentialKey \<notin> set object_prototype_keys
            \<longrightarrow> fst (getCredentials tc penv credentialKey envName st) = Inl unknownCredential)"
proof -
  from assms(2) have e: "js_get (environments tc) (resolvedName penv envName st) = Own c"
    by (simp add: js_get_Own_iff)
  note dp = getDomainPath_fst [OF assms(1) e, of pathKey]
  note cr = getCredentials_fst [OF assms(1) e, of credentialKey]
  have 1: "fst (getDomainPath tc penv pathKey envName st) = Inr (Own p)"
    if "map_of (domainPaths c) pathKey = Some p" and "p \<noteq> []"
  proof -
    from that(1) have "js_get (domainPaths c) pathKey = Own p"
      by (simp add: js_get_Own_iff)
    with that(2) show ?thesis
      by (simp add: dp)
  qed
  have 2: "fst (getDomainPath tc penv pathKey envName st) = Inl unknownPath"
    if "map_of (domainPaths c) pathKey = Some []"
  proof -
    from that have "js_get (domainPaths c) pathKey = Own []"
      by (simp add: js_get_Own_iff)
    then show ?thesis
      by (simp add: dp assms(3) object_keys_def)
  qed
  have 3: "fst (getDomainPath tc penv pathKey envName st) = Inl unknownPath"
    if "pathKey \<notin> fst ` set (domainPaths c)" and "pathKey \<notin> set object_prototype_keys"
  proof -
    from that have "js_get (domainPaths c) pathKey = Undefined"
      by (simp add: js_get_Undefined_iff)
    then show ?thesis
      by (simp add: dp assms(3) object_keys_def)
  qed
  have 4: "\<exists>r. fst (getCredentials tc penv credentialKey envName st) = Inr r"
    if "map_of (credentials c) credentialKey = Some cr"
  proof -
    from that have "js_get (credentials c) credentialKey = Own cr"
      by (simp add: js_get_Own_iff)
    then show ?thesis
      by (simp add: cr)
  qed
  have 5: "fst (getCredentials tc penv credentialKey envName st) = Inl unknownCredential"
    if "credentialKey \<notin> fst ` set (credentials c)"
      and "credentialKey \<notin> set object_prototype_keys"
  proof -
    from that have "js_get (credentials c) credentialKey = Undefined"
      by (simp add: js_get_Undefined_iff)
    then show ?thesis
      by (simp add: cr assms(4) object_keys_def)
  qed
  from 1 2 3 4 5 show ?thesis
    by blast
qed

text \<open>
  On the shipped table: the path \<^verbatim>\<open>login\<close> of QA is returned, the path key
  \<^verbatim>\<open>dashboard\<close> and the credential key \<^verbatim>\<open>nobody\<close> are reported with the keys that
  exist; on a table whose \<^verbatim>\<open>login\<close> path is the empty string, \<^verbatim>\<open>login\<close> is reported as
  not found.
\<close>

theorem path_and_credential_lookup_witness:
  "fst (getDomainPath testConfig noOverrides ''login'' (Some ''QA'') initialState)
     = Inr (Own ''/go.aspx'')
   \<and> fst (getDomainPath testConfig noOverrides ''dashboard'' (Some ''QA'') initialState)
       = Inl (Error UnknownPath
               ''Domain path \"dashboard\" not found for environment \"QA\". Available paths: site, highway, login, home, logout, settings'')
   \<and> fst (getCredentials testConfig noOverrides ''nobody'' (Some ''QA'') initialState)
       = Inl (Error UnknownCredential
               ''Credentials \"nobody\" not found for environment \"QA\". Available: RBCClient, TDFClient, testUser2, readOnlyUser'')
   \<and> (\<exists>r. fst (getCredentials testConfig noOverrides ''TDFClient'' (Some ''QA'') initialState)
              = Inr r)
   \<and> fst (getDomainPath blankLoginConfig noOverrides ''login'' (Some ''local'') initialState)
       = Inl (Error UnknownPath
               ''Domain path \"login\" not found for environment \"Local\". Available paths: site, highway, login, home, logout, settings'')"
proof -
  have h1: "cache_consistent tc initialState" for tc
    by (rule cache_consistent_initial)
  have h2: "map_of (environments testConfig) (resolvedName noOverrides (Some ''QA'') initialState)
              = Some qaEnvironment"
    by (simp add: testConfig_def resolvedName_def truthy_def)
  have h2': "map_of (environments blankLoginConfig)
               (resolvedName noOverrides (Some ''local'') initialState)
              = Some blankLoginEnvironment"
    by (simp add: blankLoginConfig_def resolvedName_def truthy_def)
  have p1: "map_of (domainPaths qaEnvironment) ''login'' = Some ''/go.aspx'' \<and> ''/go.aspx'' \<noteq> []"
    by (simp add: qaEnvironment_def shippedPaths_def)
  have p2: "''dashboard'' \<notin> fst ` set (domainPaths qaEnvironment)
            \<and> ''dashboard'' \<notin> set object_prototype_keys"
    by (simp add: qaEnvironment_def shippedPaths_def object_prototype_keys_def)
  have p3: "map_of (domainPaths blankLoginEnvironment) ''login'' = Some []"
    by (simp add: blankLoginEnvironment_def shippedPaths_def)
  have c1: "map_of (credentials qaEnvironment) ''TDFClient''
              = Some \<lparr>username = ''MIJITDF'', password = ''Assetuse@2''\<rparr>"
    by (simp add: qaEnvironment_def)
  have c2: "''nobody'' \<notin> fst ` set (credentials qaEnvironment)
            \<and> ''nobody'' \<notin> set object_prototype_keys"
    by (simp add: qaEnvironment_def object_prototype_keys_def)
  have names: "name qaEnvironment = ''QA''" "name blankLoginEnvironment = ''Local''"
    "map fst (domainPaths qaEnvironment)
       = [''site'', ''highway'', ''login'', ''home'', ''logout'', ''settings'']"
    "map fst (domainPaths blankLoginEnvironment)
       = [''site'', ''highway'', ''login'', ''home'', ''logout'', ''settings'']"
    "map fst (credentials qaEnvironment)
       = [''RBCClient'', ''TDFClient'', ''testUser2'', ''readOnlyUser'']"
    by (simp_all add: qaEnvironment_def blankLoginEnvironment_def localEnvironment_def
          shippedPaths_def)
  from path_and_credential_lookup [OF h1 h2 refl refl,
         where pathKey = "''login''" and credentialKey = "''TDFClient''"
           and p = "''/go.aspx''"
           and cr = "\<lparr>username = ''MIJITDF'', password = ''Assetuse@2''\<rparr>"] p1 c1
  have a: "fst (getDomainPath testConfig noOverrides ''login'' (Some ''QA'') initialState)
             = Inr (Own ''/go.aspx'')"
    and b: "\<exists>r. fst (getCredentials testConfig noOverrides ''TDFClient'' (Some ''QA'')
                      initialState) = Inr r"
    by blast+
  from path_and_credential_lookup [OF h1 h2 refl refl,
         where pathKey = "''dashboard''" and credentialKey = "''nobody''"] p2 c2
  have c: "fst (getDomainPath testConfig noOverrides ''dashboard'' (Some ''QA'') initialState)
             = Inl (Error UnknownPath
                 (''Domain path \"'' @ ''dashboard'' @ ''\" not found for environment \"''
                  @ name qaEnvironment @ ''\". Available paths: ''
                  @ join '', '' (map fst (domainPaths qaEnvironment))))"
    and d: "fst (getCredentials testConfig noOverrides ''nobody'' (Some ''QA'') initialState)
             = Inl (Error UnknownCredential
                 (''Credentials \"'' @ ''nobody'' @ ''\" not found for environment \"''
                  @ name qaEnvironment @ ''\". Available: ''
                  @ join '', '' (map fst (credentials qaEnvironment))))"
    by blast+
  from path_and_credential_lookup [OF h1 h2' refl refl, where pathKey = "''login''"] p3
  have e: "fst (getDomainPath blankLoginConfig noOverrides ''login'' (Some ''local'')
                  initialState)
             = Inl (Error UnknownPath
                 (''Domain path \"'' @ ''login'' @ ''\" not found for environment \"''
                  @ name blankLoginEnvironment @ ''\". Available paths: ''
                  @ join '', '' (map fst (domainPaths blankLoginEnvironment))))"
    by blast
  from a b c d e show ?thesis
    by (simp add: names)
qed

text \<open>
  C8 as stated fails: in the table \<open>blankLoginConfig\<close> the key \<^verbatim>\<open>login\<close> is present in
  the paths of \<^verbatim>\<open>local\<close>, with the empty string as its path, and \<^verbatim>\<open>getDomainPath\<close>
  fails with the error for an unknown path, which lists \<^verbatim>\<open>login\<close> among the keys.
\<close>

theorem present_path_key_counterexample:
  "map_of (environments blankLoginConfig) ''local'' = Some blankLoginEnvironment
   \<and> ''login'' \<in> fst ` set (domainPaths blankLoginEnvironment)
   \<and> fst (getDomainPath blankLoginConfig noOverrides ''login'' (Some ''local'') initialState)
       = Inl (Error UnknownPath
               ''Domain path \"login\" not found for environment \"Local\". Available paths: site, highway, login, home, logout, settings'')"
  by (simp add: blankLoginConfig_def blankLoginEnvironment_def localEnvironment_def
        shippedPaths_def getDomainPath_def getEnvironmentConfig_def resolvedName_def
        truthy_def initialState_def js_get_def object_keys_def Let_def)

section \<open>Validation\<close>

lemma validateCredentials_complete:
  assumes "list_all (\<lambda>(k, cr). credentials_complete cr) creds"
    and "set credKeys \<subseteq> fst ` set creds"
  shows "validateCredentials envName creds credKeys = None"
  using assms(2)
proof (induction credKeys)
  case Nil
  then show ?case by simp
next
  case (Cons k ks)
  then have "k \<in> fst ` set creds"
    by simp
  then obtain cr where m: "map_of creds k = Some cr"
    by (metis map_of_eq_None_iff not_Some_eq)
  then have "(k, cr) \<in> set creds"
    by (rule map_of_SomeD)
  with assms(1) have "credentials_complete cr"
    by (auto simp: list_all_iff)
  with m Cons show ?case
    by (simp add: credentials_complete_def)
qed

lemma validateUrlConfig_complete: "urlConfig_complete u \<Longrightarrow> validateUrlConfig envName u = None"
  by (simp add: urlConfig_complete_def validateUrlConfig_def)

lemma validateEnvironment_valid:
  assumes "environment_valid c"
  shows "validateEnvironment envName c = None"
proof -
  from assms have u: "(case urlConfig c of None \<Rightarrow> None | Some u \<Rightarrow> validateUrlConfig envName u)
                        = None"
    by (auto simp: environment_valid_def passes_field_checks_def validateUrlConfig_complete
             split: option.splits)
  from assms have "validateCredentials envName (credentials c) (object_keys (credentials c))
                     = None"
    by (intro validateCredentials_complete) (auto simp: environment_valid_def object_keys_def)
  with assms u show ?thesis
    by (simp add: validateEnvironment_def environment_valid_def passes_field_checks_def
          object_keys_def)
qed

lemma validateEnvironment_no_credentials:
  assumes "passes_field_checks c" and "domainPaths c \<noteq> []" and "credentials c = []"
  shows "validateEnvironment envName c
     = Some (Error EmptyCredentialSet
              (''Environment \"'' @ envName @ ''\" has no credentials defined''))"
proof -
  from assms(1) have u: "(case urlConfig c of None \<Rightarrow> None
                          | Some u \<Rightarrow> validateUrlConfig envName u) = None"
    by (auto simp: passes_field_checks_def validateUrlConfig_complete split: option.splits)
  with assms show ?thesis
    by (simp add: validateEnvironment_def passes_field_checks_def object_keys_def)
qed

lemma validateEnvironments_skip:
  assumes "\<And>k. k \<in> set ks \<Longrightarrow>
             \<exists>c. map_of (environments tc) k = Some c \<and> validateEnvironment k c = None"
  shows "validateEnvironments tc (ks @ rest) = validateEnvironments tc rest"
  using assms
proof (induction ks)
  case Nil
  then show ?case by simp
next
  case (Cons k ks)
  from Cons.prems [of k] obtain c
    where "map_of (environments tc) k = Some c" and "validateEnvironment k c = None"
    by auto
  moreover have "validateEnvironments tc (ks @ rest) = validateEnvironments tc rest"
    by (rule Cons.IH) (simp add: Cons.prems)
  ultimately show ?case
    by simp
qed

lemma map_of_valid_prefix:
  assumes "all_environments_valid envs" and "k \<in> fst ` set envs"
  shows "\<exists>c. map_of (envs @ others) k = Some c \<and> validateEnvironment k c = None"
proof -
  from assms(2) obtain c where m: "map_of envs k = Some c"
    by (metis map_of_eq_None_iff not_Some_eq)
  then have "(k, c) \<in> set envs"
    by (rule map_of_SomeD)
  with assms(1) have "environment_valid c"
    by (auto simp: all_environments_valid_def list_all_iff)
  with m show ?thesis
    by (simp add: validateEnvironment_valid)
qed

lemma validateConfig_valid:
  assumes "environments tc \<noteq> []" and "all_environments_valid (environments tc)"
  shows "validateConfig tc = Inr True"
proof -
  have "validateEnvironments tc (map fst (environments tc) @ [])
          = validateEnvironments tc []"
    using map_of_valid_prefix [OF assms(2), of _ "[]"]
    by (intro validateEnvironments_skip) simp
  with assms(1) show ?thesis
    by (simp add: validateConfig_def getAvailableEnvironments_def object_keys_def)
qed

lemma validateConfig_no_credentials:
  assumes "distinct (map fst (environments tc))"
    and "environments tc = before @ (envName, c) # after"
    and "all_environments_valid before"
    and "passes_field_checks c" and "domainPaths c \<noteq> []" and "credentials c = []"
  shows "validateConfig tc
     = Inl (Error EmptyCredentialSet
             (''Environment \"'' @ envName @ ''\" has no credentials defined''))"
proof -
  from assms(1,2) have notin: "envName \<notin> fst ` set before"
    by auto
  then have here: "map_of (environments tc) envName = Some c"
    by (simp add: assms(2) map_add_def map_of_eq_None_iff [THEN iffD2])
  have "validateEnvironments tc (map fst before @ envName # map fst after)
          = validateEnvironments tc (envName # map fst after)"
    using map_of_valid_prefix [OF assms(3), of _ "(envName, c) # after"]
    by (intro validateEnvironments_skip) (simp add: assms(2))
  also have "\<dots> = Inl (Error EmptyCredentialSet
                        (''Environment \"'' @ envName @ ''\" has no credentials defined''))"
    by (simp add: here validateEnvironment_no_credentials [OF assms(4-6)])
  finally show ?thesis
    by (simp add: validateConfig_def getAvailableEnvironments_def object_keys_def assms(2))
qed

text \<open>
  What the checks accept and how they report an empty \<^verbatim>\<open>credentials\<close> object, on two
  small tables: the shipped environment \<^verbatim>\<open>local\<close> alone is valid; with an environment
  \<^verbatim>\<open>staging\<close> without credentials added, the table is rejected for \<^verbatim>\<open>staging\<close>. A
  table whose only environment has an empty \<^verbatim>\<open>name\<close> is rejected for that field.
\<close>

lemma validateConfig_examples:
  "validateConfig localOnlyConfig = Inr True
   \<and> validateConfig noCredentialsConfig
       = Inl (Error EmptyCredentialSet ''Environment \"staging\" has no credentials defined'')
   \<and> validateConfig unnamedConfig
       = Inl (Error MissingField ''Environment \"local\" missing required field: name'')"
proof -
  have v: "all_environments_valid [(''local'', localEnvironment)]"
    by (simp add: all_environments_valid_def environment_valid_def passes_field_checks_def
          credentials_complete_def localEnvironment_def shippedPaths_def)
  have a: "validateConfig localOnlyConfig = Inr True"
    using v by (intro validateConfig_valid) (simp_all add: localOnlyConfig_def)
  have c: "passes_field_checks (localEnvironment\<lparr>credentials := []\<rparr>)"
    "domainPaths (localEnvironment\<lparr>credentials := []\<rparr>) \<noteq> []"
    "credentials (localEnvironment\<lparr>credentials := []\<rparr>) = []"
    by (simp_all add: passes_field_checks_def localEnvironment_def shippedPaths_def)
  have b: "validateConfig noCredentialsConfig
             = Inl (Error EmptyCredentialSet
                     (''Environment \"'' @ ''staging'' @ ''\" has no credentials defined''))"
    using v c
    by (intro validateConfig_no_credentials
          [where before = "[(''local'', localEnvironment)]" and after = "[]"
             and c = "localEnvironment\<lparr>credentials := []\<rparr>"])
       (simp_all add: noCredentialsConfig_def)
  have u: "validateConfig unnamedConfig
             = Inl (Error MissingField ''Environment \"local\" missing required field: name'')"
    by (simp add: unnamedConfig_def localEnvironment_def validateConfig_def
          getAvailableEnvironments_def object_keys_def validateEnvironment_def)
  from a b u show ?thesis
    by simp
qed

text \<open>
  C4. \<^verbatim>\<open>validateConfig\<close> is to return true for every table that satisfies the
  invariants of the data model: at least one path and one credential set in every
  environment, a non-empty username and password in every pair, four non-empty
  \<^verbatim>\<open>urlConfig\<close> fields where \<^verbatim>\<open>urlConfig\<close> is present, a non-empty \<^verbatim>\<open>baseUrl\<close> where it is
  absent. The shipped table satisfies them, and \<^verbatim>\<open>validateConfig\<close> rejects it: \<^verbatim>\<open>dev\<close>
  has a \<^verbatim>\<open>urlConfig\<close> and the empty string as \<^verbatim>\<open>baseUrl\<close>, which the table marks as
  deprecated, and the check of \<^verbatim>\<open>baseUrl\<close> does not look at \<^verbatim>\<open>urlConfig\<close>.
\<close>

theorem validateConfig_rejects_shipped_table:
  "table_satisfies_spec_invariants testConfig
   \<and> validateConfig testConfig
       = Inl (Error MissingField ''Environment \"dev\" missing required field: baseUrl'')"
  by (simp add: table_satisfies_spec_invariants_def spec_invariant_def credentials_complete_def
        urlConfig_complete_def testConfig_def devEnvironment_def qaEnvironment_def
        prodEnvironment_def localEnvironment_def shippedPaths_def validateConfig_def
        getAvailableEnvironments_def object_keys_def validateEnvironment_def)

end
